theory Spec2Isabelle
  imports Main "HOL-Library.Word"
begin

section \<open>Strings and the host editor's primitives\<close>

text \<open>
  A JavaScript string is a sequence of UTF-16 code units. The literals of the source are
  ASCII, so \<open>str\<close> turns an Isabelle string literal into its code units.
\<close>

type_synonym codeunit = "16 word"
type_synonym jsstring = "codeunit list"

definition str :: "string \<Rightarrow> jsstring" where
  "str s = map of_char s"

text \<open>
  The character class \<^verbatim>\<open>\s\<close> of an ECMAScript regular expression: the white space
  code points (TAB, VT, FF, SP, NBSP, ZWNBSP and the space separators of Unicode) and the
  line terminators (LF, CR, LS, PS).
\<close>

definition isWhiteSpace :: "codeunit \<Rightarrow> bool" where
  "isWhiteSpace c =
     (c = 0x0009 \<or> c = 0x000A \<or> c = 0x000B \<or> c = 0x000C \<or> c = 0x000D \<or>
      c = 0x0020 \<or> c = 0x00A0 \<or> c = 0x1680 \<or> (0x2000 \<le> c \<and> c \<le> 0x200A) \<or>
      c = 0x2028 \<or> c = 0x2029 \<or> c = 0x202F \<or> c = 0x205F \<or> c = 0x3000 \<or> c = 0xFEFF)"

text \<open>
  \<^verbatim>\<open>s.match(/\s+$/)\<close>: the search tries the start indices from the left; at an index
  the greedy \<^verbatim>\<open>\s+\<close> followed by the end anchor matches exactly when the rest of the
  string is non-empty and all white space. The result is the matched text, or \<open>None\<close>
  for \<^verbatim>\<open>null\<close>.
\<close>

fun match_ws_end :: "jsstring \<Rightarrow> jsstring option" where
  "match_ws_end [] = None"
| "match_ws_end (c # cs) =
     (if list_all isWhiteSpace (c # cs) then Some (c # cs) else match_ws_end cs)"

text \<open>
  \<^verbatim>\<open>s.match(/^\s+/)\<close>: the start anchor admits index 0 only, where the greedy
  \<^verbatim>\<open>\s+\<close> takes the longest run of white space; an empty run is no match.
\<close>

definition match_ws_start :: "jsstring \<Rightarrow> jsstring option" where
  "match_ws_start s =
     (case takeWhile isWhiteSpace s of [] \<Rightarrow> None | c # cs \<Rightarrow> Some (c # cs))"

record Position =
  line :: nat
  character :: nat

record Range =
  start :: Position
  end' :: Position

text \<open>\<^verbatim>\<open>Position.isBefore\<close> and \<^verbatim>\<open>Position.isEqual\<close> of the editor.\<close>

definition isBefore :: "Position \<Rightarrow> Position \<Rightarrow> bool" where
  "isBefore p q = (line p < line q \<or> (line p = line q \<and> character p < character q))"

definition isEqual :: "Position \<Rightarrow> Position \<Rightarrow> bool" where
  "isEqual p q = (line p = line q \<and> character p = character q)"

text \<open>
  \<^verbatim>\<open>new Range(a, b)\<close> orders its two positions, and
  \<^verbatim>\<open>new Range(l1, c1, l2, c2)\<close> builds the two positions first.
\<close>

definition newRange :: "Position \<Rightarrow> Position \<Rightarrow> Range" where
  "newRange a b = (if isBefore a b then \<lparr>start = a, end' = b\<rparr> else \<lparr>start = b, end' = a\<rparr>)"

definition newRange4 :: "nat \<Rightarrow> nat \<Rightarrow> nat \<Rightarrow> nat \<Rightarrow> Range" where
  "newRange4 l1 c1 l2 c2 =
     newRange \<lparr>line = l1, character = c1\<rparr> \<lparr>line = l2, character = c2\<rparr>"

text \<open>\<^verbatim>\<open>Range.contains(position)\<close>: the position lies between the two ends, inclusive.\<close>

definition contains :: "Range \<Rightarrow> Position \<Rightarrow> bool" where
  "contains r p = (\<not> isBefore p (start r) \<and> \<not> isBefore (end' r) p)"

text \<open>
  A document is its lines, without their line breaks. \<^verbatim>\<open>document.lineAt(position)\<close>
  gives the line of the position, with its text and its range from column 0 to the length
  of the text, and throws when the document has no such line. The column of the position
  plays no part in it.
\<close>

record TextLine =
  text' :: jsstring
  range' :: Range

record TextDocument =
  lines :: "jsstring list"

record TextEditor =
  document :: TextDocument

datatype error = IllegalLine

definition lineAt :: "TextDocument \<Rightarrow> Position \<Rightarrow> error + TextLine" where
  "lineAt d p =
     (if line p < length (lines d)
      then Inr \<lparr>text' = lines d ! line p,
                range' = newRange4 (line p) 0 (line p) (length (lines d ! line p))\<rparr>
      else Inl IllegalLine)"

section \<open>The selection model\<close>

record TypedSelection =
  editor :: TextEditor
  isReversed :: "bool option"
  isRawSelection :: "bool option"
  delimiter :: "jsstring option"
  contentRange :: Range
  interiorRange :: "Range option"
  leadingDelimiterRange :: "Range option"
  trailingDelimiterRange :: "Range option"
  boundary :: "Range list option"

text \<open>
  The pipeline context. The hat map, the marks and the syntax nodes are opaque here: no
  stage below looks into them.
\<close>

record ('hat, 'mark, 'loc, 'node) ProcessedTargetsContext =
  hatTokenMap :: 'hat
  thatMark :: "'mark list"
  sourceMark :: "'mark list"
  getNodeAtLocation :: "'loc \<Rightarrow> 'node"

section \<open>Position stage\<close>

text \<open>
  Modelled from the spec: the declaration of \<^verbatim>\<open>PositionModifier\<close>, which lives in
  \<^verbatim>\<open>typings/target.types\<close> and is not among the sources. The descriptor is an object
  carrying a \<open>position\<close> restricted to before, start, after and end. At run time the
  value is a string, which the \<^verbatim>\<open>switch\<close> compares with its four case labels, so
  the field is a string here and the restriction is a hypothesis where it matters.
\<close>

record PositionModifier =
  type' :: jsstring
  position :: jsstring

text \<open>
  The helper \<^verbatim>\<open>range\<close> of the position stage: the zero-width range at a position,
  and nothing for a missing position.
\<close>

definition range_opt :: "Position option \<Rightarrow> Range option" where
  "range_opt p = (case p of Some q \<Rightarrow> Some (newRange q q) | None \<Rightarrow> None)"

definition PositionStage_run ::
  "('hat, 'mark, 'loc, 'node) ProcessedTargetsContext \<Rightarrow> PositionModifier \<Rightarrow>
   TypedSelection \<Rightarrow> TypedSelection" where
  "PositionStage_run context stage selection =
     (let res = selection in
      if position stage = str ''before'' \<or> position stage = str ''start'' then
        let res = res\<lparr>contentRange := the (range_opt (Some (start (contentRange res))))\<rparr>
        in res\<lparr>interiorRange := range_opt (map_option start (interiorRange res))\<rparr>
      else if position stage = str ''after'' \<or> position stage = str ''end'' then
        let res = res\<lparr>contentRange := the (range_opt (Some (end' (contentRange res))))\<rparr>
        in res\<lparr>interiorRange := range_opt (map_option end' (interiorRange res))\<rparr>
      else res)"

section \<open>Token stage\<close>

text \<open>
  The stage descriptor \<^verbatim>\<open>ContainingScopeModifier\<close> is declared outside the sources and
  is never read by the stage: it is a type parameter of \<open>TokenStage_run\<close>.

  The column subtraction of the leading range is the subtraction of natural numbers here;
  \<open>leading_columns\<close> below shows that the matched text is never longer than the start
  column, so nothing is cut off.
\<close>

text \<open>
  The three local values of \<^verbatim>\<open>getDelimiterRanges\<close>, each as a function of what it
  reads: \<^verbatim>\<open>leadingDelimiterRange\<close> from the start position and its line,
  \<^verbatim>\<open>trailingDelimiterRange\<close> from the end position and its line, and
  \<^verbatim>\<open>isInDelimitedList\<close> from both. \<^verbatim>\<open>slice(0, n)\<close> and \<^verbatim>\<open>slice(n)\<close>
  of a string are \<open>take n\<close> and \<open>drop n\<close>: both stop at the end of the string. The
  positions \<^verbatim>\<open>start\<close> and \<^verbatim>\<open>end\<close> of the source are \<open>s\<close> and \<open>e\<close>.
\<close>

definition leadingScan :: "Position \<Rightarrow> TextLine \<Rightarrow> Range option" where
  "leadingScan s startLine =
     (let leadingText = take (character s) (text' startLine);
          leadingDelimiters = match_ws_end leadingText
      in case leadingDelimiters of
           Some m \<Rightarrow> Some (newRange4 (line s) (character s - length m) (line s) (character s))
         | None \<Rightarrow> None)"

definition trailingScan :: "Position \<Rightarrow> TextLine \<Rightarrow> Range option" where
  "trailingScan e endLine =
     (let trailingText = drop (character e) (text' endLine);
          trailingDelimiters = match_ws_start trailingText
      in case trailingDelimiters of
           Some m \<Rightarrow> Some (newRange4 (line e) (character e) (line e) (character e + length m))
         | None \<Rightarrow> None)"

definition isInDelimitedList ::
  "Range option \<Rightarrow> Range option \<Rightarrow> Position \<Rightarrow> Position \<Rightarrow> TextLine \<Rightarrow> bool" where
  "isInDelimitedList leadingRange trailingRange s e endLine =
     ((leadingRange \<noteq> None \<or> trailingRange \<noteq> None) \<and>
      (leadingRange \<noteq> None \<or> character s = 0) \<and>
      (trailingRange \<noteq> None \<or> isEqual e (end' (range' endLine))))"

definition getDelimiterRanges :: "TypedSelection \<Rightarrow> error + (Range option \<times> Range option)" where
  "getDelimiterRanges selection =
     (let doc = document (editor selection);
          s = start (contentRange selection);
          e = end' (contentRange selection)
      in case lineAt doc e of
           Inl err \<Rightarrow> Inl err
         | Inr endLine \<Rightarrow>
             (case lineAt doc s of
                Inl err \<Rightarrow> Inl err
              | Inr startLine \<Rightarrow>
                  (let leadingRange = leadingScan s startLine;
                       trailingRange = trailingScan e endLine;
                       inList = isInDelimitedList leadingRange trailingRange s e endLine
                   in Inr (if inList then leadingRange else None,
                           if inList then trailingRange else None))))"

text \<open>
  The stage itself: the selection with a single space as its delimiter and the two ranges
  of \<^verbatim>\<open>getDelimiterRanges\<close>. An exception of \<^verbatim>\<open>lineAt\<close> leaves the stage.
\<close>

definition TokenStage_run ::
  "('hat, 'mark, 'loc, 'node) ProcessedTargetsContext \<Rightarrow> 'stage \<Rightarrow>
   TypedSelection \<Rightarrow> error + TypedSelection" where
  "TokenStage_run context stage selection =
     (case getDelimiterRanges selection of
        Inl err \<Rightarrow> Inl err
      | Inr (l, t) \<Rightarrow>
          Inr (selection\<lparr>delimiter := Some (str '' ''),
                          leadingDelimiterRange := l,
                          trailingDelimiterRange := t\<rparr>))"

section \<open>Example inputs\<close>

text \<open>
  Concrete contexts, documents and selections, on which the theorems below are instantiated.
\<close>

definition example_context :: "(unit, unit, unit, unit) ProcessedTargetsContext" where
  "example_context =
     \<lparr>hatTokenMap = (), thatMark = [], sourceMark = [], getNodeAtLocation = (\<lambda>_. ())\<rparr>"

definition other_context :: "(nat, bool, unit, nat) ProcessedTargetsContext" where
  "other_context =
     \<lparr>hatTokenMap = 7, thatMark = [True], sourceMark = [False, True],
      getNodeAtLocation = (\<lambda>_. 3)\<rparr>"

definition span :: "nat \<Rightarrow> nat \<Rightarrow> nat \<Rightarrow> nat \<Rightarrow> Range" where
  "span l1 c1 l2 c2 =
     \<lparr>start = \<lparr>line = l1, character = c1\<rparr>, end' = \<lparr>line = l2, character = c2\<rparr>\<rparr>"

definition example_line :: "string \<Rightarrow> nat \<Rightarrow> TextLine" where
  "example_line s l = \<lparr>text' = str s, range' = span l 0 l (length s)\<rparr>"

definition example_selection :: "string list \<Rightarrow> Range \<Rightarrow> TypedSelection" where
  "example_selection ls r =
     \<lparr>editor = \<lparr>document = \<lparr>lines = map str ls\<rparr>\<rparr>,
      isReversed = Some False, isRawSelection = None, delimiter = Some (str '',''),
      contentRange = r, interiorRange = None,
      leadingDelimiterRange = None, trailingDelimiterRange = None, boundary = None\<rparr>"

definition example_stage :: "string \<Rightarrow> PositionModifier" where
  "example_stage p = \<lparr>type' = str ''position'', position = str p\<rparr>"

section \<open>Facts about the primitives\<close>

lemma match_ws_end_Some:
  "match_ws_end s = Some m \<Longrightarrow>
     \<exists>p. s = p @ m \<and> m \<noteq> [] \<and> list_all isWhiteSpace m \<and> (p = [] \<or> \<not> isWhiteSpace (last p))"
proof (induction s)
  case Nil
  then show ?case by simp
next
  case (Cons c cs)
  show ?case
  proof (cases "list_all isWhiteSpace (c # cs)")
    case True
    with Cons.prems have "m = c # cs" by simp
    with True show ?thesis by auto
  next
    case False
    with Cons.prems have "match_ws_end cs = Some m" by (simp split: if_splits)
    from Cons.IH [OF this] obtain p where p: "cs = p @ m" "m \<noteq> []" "list_all isWhiteSpace m"
      "p = [] \<or> \<not> isWhiteSpace (last p)" by blast
    from False p have "\<not> isWhiteSpace (last (c # p))"
      by (cases "p = []") auto
    with p show ?thesis by (intro exI [of _ "c # p"]) simp
  qed
qed

lemma match_ws_end_None:
  "match_ws_end s = None \<longleftrightarrow> s = [] \<or> \<not> isWhiteSpace (last s)"
proof (induction s)
  case Nil
  show ?case by simp
next
  case (Cons c cs)
  show ?case
  proof (cases cs)
    case Nil
    then show ?thesis by simp
  next
    case (Cons d ds)
    have "list_all isWhiteSpace (c # cs) \<Longrightarrow> isWhiteSpace (last cs)"
      using Cons by (auto simp: list_all_iff)
    with Cons.IH Cons show ?thesis by auto
  qed
qed

lemma match_ws_start_Some:
  "match_ws_start s = Some m \<Longrightarrow>
     \<exists>r. s = m @ r \<and> m \<noteq> [] \<and> list_all isWhiteSpace m \<and> (r = [] \<or> \<not> isWhiteSpace (hd r))"
proof -
  assume a: "match_ws_start s = Some m"
  then have m: "m = takeWhile isWhiteSpace s" "m \<noteq> []"
    by (auto simp: match_ws_start_def split: list.splits)
  have "s = m @ dropWhile isWhiteSpace s" using m by simp
  moreover have "list_all isWhiteSpace m"
    using m by (auto simp: list_all_iff dest: set_takeWhileD)
  moreover have "dropWhile isWhiteSpace s = [] \<or> \<not> isWhiteSpace (hd (dropWhile isWhiteSpace s))"
    by (metis hd_dropWhile)
  ultimately show ?thesis using m by blast
qed

lemma match_ws_start_None:
  "match_ws_start s = None \<longleftrightarrow> s = [] \<or> \<not> isWhiteSpace (hd s)"
  by (cases s) (simp_all add: match_ws_start_def)

lemma newRange4_same_line:
  "a \<le> b \<Longrightarrow> newRange4 l a l b =
     \<lparr>start = \<lparr>line = l, character = a\<rparr>, end' = \<lparr>line = l, character = b\<rparr>\<rparr>"
  by (auto simp: newRange4_def newRange_def isBefore_def)

lemma newRange_same: "newRange p p = \<lparr>start = p, end' = p\<rparr>"
  by (simp add: newRange_def isBefore_def)

lemma lineAt_Inr:
  "lineAt d p = Inr l \<Longrightarrow>
     line p < length (lines d) \<and> text' l = lines d ! line p \<and>
     start (range' l) = \<lparr>line = line p, character = 0\<rparr> \<and>
     end' (range' l) = \<lparr>line = line p, character = length (text' l)\<rparr>"
  by (auto simp: lineAt_def newRange4_same_line split: if_splits)

lemma isEqual_iff: "isEqual p q \<longleftrightarrow> p = q"
  by (auto simp: isEqual_def)

lemma isBefore_antisym: "\<not> isBefore p q \<Longrightarrow> \<not> isBefore q p \<Longrightarrow> p = q"
  by (cases p, cases q) (auto simp: isBefore_def)

lemma leading_columns:
  assumes "match_ws_end (take c t) = Some m"
  shows "0 < length m \<and> length m \<le> c \<and>
         (c \<le> length t \<longrightarrow>
            (\<forall>k. c - length m \<le> k \<and> k < c \<longrightarrow> isWhiteSpace (t ! k)) \<and>
            (c - length m = 0 \<or> \<not> isWhiteSpace (t ! (c - length m - 1))))"
proof -
  from match_ws_end_Some [OF assms] obtain p where p: "take c t = p @ m" "m \<noteq> []"
    "list_all isWhiteSpace m" "p = [] \<or> \<not> isWhiteSpace (last p)" by blast
  from p(1) have len: "min (length t) c = length p + length m"
    by (metis length_append length_take)
  have nth: "(p @ m) ! k = t ! k" if "k < c" for k
    using that p(1) by (metis nth_take)
  have ws: "isWhiteSpace (t ! k)" if "c \<le> length t" "c - length m \<le> k" "k < c" for k
  proof -
    from that len have k: "length p \<le> k" "k - length p < length m" by auto
    then have "(p @ m) ! k = m ! (k - length p)" by (simp add: nth_append)
    moreover have "isWhiteSpace (m ! (k - length p))"
      using p(3) k by (simp add: list_all_length)
    ultimately show ?thesis using nth [OF that(3)] by simp
  qed
  have mx: "c - length m = 0 \<or> \<not> isWhiteSpace (t ! (c - length m - 1))" if "c \<le> length t"
  proof (cases "p = []")
    case True
    with len that show ?thesis by simp
  next
    case False
    with p(4) have "\<not> isWhiteSpace (last p)" by simp
    moreover from False have "last p = (p @ m) ! (length p - 1)"
      by (simp add: last_conv_nth nth_append)
    moreover from False have lp: "0 < length p" by simp
    from len that have ceq: "c = length p + length m" by simp
    from lp ceq have "length p - 1 < c" "c - length m - 1 = length p - 1"
      by linarith+
    ultimately show ?thesis using nth [of "length p - 1"] by simp
  qed
  from p(2) len ws mx show ?thesis by auto
qed

lemma trailing_columns:
  assumes "match_ws_start (drop c t) = Some m"
  shows "0 < length m \<and> c + length m \<le> length t \<and>
         (\<forall>k. c \<le> k \<and> k < c + length m \<longrightarrow> isWhiteSpace (t ! k)) \<and>
         (c + length m = length t \<or> \<not> isWhiteSpace (t ! (c + length m)))"
proof -
  from match_ws_start_Some [OF assms] obtain r where r: "drop c t = m @ r" "m \<noteq> []"
    "list_all isWhiteSpace m" "r = [] \<or> \<not> isWhiteSpace (hd r)" by blast
  from r(1) have len: "length t - c = length m + length r"
    by (metis length_append length_drop)
  with r(2) have c: "c + length m \<le> length t" by (cases m) auto
  have nth: "(m @ r) ! j = t ! (c + j)" if "c + j < length t" for j
    using that r(1) by (metis nth_drop less_imp_le_nat le_add1 le_trans)
  have ws: "isWhiteSpace (t ! k)" if "c \<le> k" "k < c + length m" for k
  proof -
    from that have j: "k - c < length m" by auto
    then have "(m @ r) ! (k - c) = m ! (k - c)" by (simp add: nth_append)
    moreover have "isWhiteSpace (m ! (k - c))" using r(3) j by (simp add: list_all_length)
    moreover from that c have "c + (k - c) < length t" by auto
    ultimately show ?thesis using nth [of "k - c"] that by simp
  qed
  have mx: "c + length m = length t \<or> \<not> isWhiteSpace (t ! (c + length m))"
  proof (cases "r = []")
    case True
    with len c have "c + length m = length t" by simp
    then show ?thesis by simp
  next
    case False
    with r(4) have "\<not> isWhiteSpace (hd r)" by simp
    moreover from False have "hd r = (m @ r) ! length m" by (simp add: hd_conv_nth nth_append)
    moreover from False len have "c + length m < length t" by (cases r) auto
    ultimately show ?thesis using nth [of "length m"] by simp
  qed
  from r(2) c ws mx show ?thesis by auto
qed

section \<open>Facts about the token stage\<close>

lemma leadingScan_Some:
  "leadingScan s l = Some r \<Longrightarrow>
     \<exists>m. match_ws_end (take (character s) (text' l)) = Some m \<and>
         r = \<lparr>start = \<lparr>line = line s, character = character s - length m\<rparr>, end' = s\<rparr>"
  by (auto simp: leadingScan_def Let_def newRange4_same_line split: option.splits)

lemma leadingScan_None:
  "leadingScan s l = None \<longleftrightarrow>
     take (character s) (text' l) = [] \<or> \<not> isWhiteSpace (last (take (character s) (text' l)))"
  unfolding match_ws_end_None [symmetric]
  by (cases "match_ws_end (take (character s) (text' l))") (simp_all add: leadingScan_def)

lemma trailingScan_Some:
  "trailingScan e l = Some r \<Longrightarrow>
     \<exists>m. match_ws_start (drop (character e) (text' l)) = Some m \<and>
         r = \<lparr>start = e, end' = \<lparr>line = line e, character = character e + length m\<rparr>\<rparr>"
  by (auto simp: trailingScan_def Let_def newRange4_same_line split: option.splits)

lemma trailingScan_None:
  "trailingScan e l = None \<longleftrightarrow>
     drop (character e) (text' l) = [] \<or> \<not> isWhiteSpace (hd (drop (character e) (text' l)))"
  unfolding match_ws_start_None [symmetric]
  by (cases "match_ws_start (drop (character e) (text' l))") (simp_all add: trailingScan_def)

lemma TokenStage_run_Inr:
  assumes "lineAt (document (editor sel)) (start (contentRange sel)) = Inr sl"
      and "lineAt (document (editor sel)) (end' (contentRange sel)) = Inr el"
  shows "TokenStage_run ctx stage sel =
     Inr (sel\<lparr>delimiter := Some (str '' ''),
               leadingDelimiterRange :=
                 (if isInDelimitedList (leadingScan (start (contentRange sel)) sl)
                       (trailingScan (end' (contentRange sel)) el)
                       (start (contentRange sel)) (end' (contentRange sel)) el
                  then leadingScan (start (contentRange sel)) sl else None),
               trailingDelimiterRange :=
                 (if isInDelimitedList (leadingScan (start (contentRange sel)) sl)
                       (trailingScan (end' (contentRange sel)) el)
                       (start (contentRange sel)) (end' (contentRange sel)) el
                  then trailingScan (end' (contentRange sel)) el else None)\<rparr>)"
  using assms by (simp add: TokenStage_run_def getDelimiterRanges_def Let_def)

lemma TokenStage_run_error:
  "TokenStage_run ctx stage sel = Inl err \<longleftrightarrow>
     \<not> (line (start (contentRange sel)) < length (lines (document (editor sel))) \<and>
        line (end' (contentRange sel)) < length (lines (document (editor sel))))"
  by (cases err)
     (auto simp: TokenStage_run_def getDelimiterRanges_def lineAt_def Let_def
           split: sum.splits prod.splits)

lemma TokenStage_run_scans:
  assumes "lineAt (document (editor sel)) (start (contentRange sel)) = Inr sl"
      and "lineAt (document (editor sel)) (end' (contentRange sel)) = Inr el"
  obtains out where "TokenStage_run ctx stage sel = Inr out"
    and "\<And>r. leadingDelimiterRange out = Some r \<Longrightarrow>
            leadingScan (start (contentRange sel)) sl = Some r"
    and "\<And>r. trailingDelimiterRange out = Some r \<Longrightarrow>
            trailingScan (end' (contentRange sel)) el = Some r"
proof -
  let ?Q = "isInDelimitedList (leadingScan (start (contentRange sel)) sl)
              (trailingScan (end' (contentRange sel)) el)
              (start (contentRange sel)) (end' (contentRange sel)) el"
  let ?out = "sel\<lparr>delimiter := Some (str '' ''),
               leadingDelimiterRange :=
                 (if ?Q then leadingScan (start (contentRange sel)) sl else None),
               trailingDelimiterRange :=
                 (if ?Q then trailingScan (end' (contentRange sel)) el else None)\<rparr>"
  have "TokenStage_run ctx stage sel = Inr ?out"
    by (rule TokenStage_run_Inr [OF assms])
  moreover have "leadingScan (start (contentRange sel)) sl = Some r"
    if "leadingDelimiterRange ?out = Some r" for r
    using that by (cases ?Q) simp_all
  moreover have "trailingScan (end' (contentRange sel)) el = Some r"
    if "trailingDelimiterRange ?out = Some r" for r
    using that by (cases ?Q) simp_all
  ultimately show ?thesis by (rule that)
qed

section \<open>Facts about the position stage\<close>

lemma range_opt_Some: "range_opt (Some p) = Some \<lparr>start = p, end' = p\<rparr>"
  by (simp add: range_opt_def newRange_same)

lemma range_opt_None: "range_opt None = None"
  by (simp add: range_opt_def)

lemma position_labels_distinct:
  "str ''before'' \<noteq> str ''after''" "str ''before'' \<noteq> str ''end''"
  "str ''start'' \<noteq> str ''after''" "str ''start'' \<noteq> str ''end''"
  by (simp_all add: str_def)

section \<open>The stages on the example inputs\<close>

lemma example_lineAt:
  "l < length ls \<Longrightarrow>
   lineAt (document (editor (example_selection ls r))) \<lparr>line = l, character = c\<rparr> =
     Inr (example_line (ls ! l) l)"
  by (simp add: lineAt_def example_selection_def example_line_def span_def str_def
                newRange4_same_line)

lemma example_start_line:
  "l1 < length ls \<Longrightarrow>
   lineAt (document (editor (example_selection ls (span l1 c1 l2 c2))))
          (start (contentRange (example_selection ls (span l1 c1 l2 c2)))) =
     Inr (example_line (ls ! l1) l1)"
  using example_lineAt [of l1 ls "span l1 c1 l2 c2" c1]
  by (simp add: example_selection_def span_def)

lemma example_end_line:
  "l2 < length ls \<Longrightarrow>
   lineAt (document (editor (example_selection ls (span l1 c1 l2 c2))))
          (end' (contentRange (example_selection ls (span l1 c1 l2 c2)))) =
     Inr (example_line (ls ! l2) l2)"
  using example_lineAt [of l2 ls "span l1 c1 l2 c2" c2]
  by (simp add: example_selection_def span_def)

lemma example_run_foo_bar_baz:
  "TokenStage_run example_context () (example_selection [''foo bar baz''] (span 0 4 0 7)) =
     Inr ((example_selection [''foo bar baz''] (span 0 4 0 7))
            \<lparr>delimiter := Some (str '' ''),
             leadingDelimiterRange := Some (span 0 3 0 4),
             trailingDelimiterRange := Some (span 0 7 0 8)\<rparr>)"
  by code_simp

lemma example_run_a_foobar:
  "TokenStage_run example_context () (example_selection [''a foobar''] (span 0 2 0 5)) =
     Inr ((example_selection [''a foobar''] (span 0 2 0 5))
            \<lparr>delimiter := Some (str '' ''),
             leadingDelimiterRange := None,
             trailingDelimiterRange := None\<rparr>)"
  by code_simp

lemma example_run_two_lines:
  "TokenStage_run example_context () (example_selection [''if (x) {'', ''  y  ''] (span 0 3 1 3)) =
     Inr ((example_selection [''if (x) {'', ''  y  ''] (span 0 3 1 3))
            \<lparr>delimiter := Some (str '' ''),
             leadingDelimiterRange := Some (span 0 2 0 3),
             trailingDelimiterRange := Some (span 1 3 1 5)\<rparr>)"
  by code_simp

section \<open>The claims\<close>

text \<open>
  Claim C1. For a selection whose start and end lines are lines of the document, the
  token stage returns a selection, and that selection carries a delimiter range (the
  selection is marked as being in a delimited list) if and only if all three conditions
  hold: white space was found directly before the start or directly after the end on the
  respective line; white space was found before the start or the start is at column 0;
  white space was found after the end or the end is the end-of-line position of its line.
  When the three conditions hold, each side carries a range exactly when white space was
  found on that side; when they do not, both delimiter ranges are absent.
\<close>

theorem TokenStage_qualification:
  assumes "lineAt (document (editor sel)) (start (contentRange sel)) = Inr startLine"
      and "lineAt (document (editor sel)) (end' (contentRange sel)) = Inr endLine"
  shows "\<exists>out. TokenStage_run ctx stage sel = Inr out \<and>
     (let s = start (contentRange sel);
          e = end' (contentRange sel);
          leadingText = take (character s) (text' startLine);
          trailingText = drop (character e) (text' endLine);
          leadingFound = (leadingText \<noteq> [] \<and> isWhiteSpace (last leadingText));
          trailingFound = (trailingText \<noteq> [] \<and> isWhiteSpace (hd trailingText));
          qualifies = ((leadingFound \<or> trailingFound) \<and>
                       (leadingFound \<or> character s = 0) \<and>
                       (trailingFound \<or> e = end' (range' endLine)))
      in ((leadingDelimiterRange out \<noteq> None \<or> trailingDelimiterRange out \<noteq> None) = qualifies) \<and>
         (qualifies \<longrightarrow> (leadingDelimiterRange out \<noteq> None) = leadingFound \<and>
                        (trailingDelimiterRange out \<noteq> None) = trailingFound) \<and>
         (\<not> qualifies \<longrightarrow> leadingDelimiterRange out = None \<and>
                          trailingDelimiterRange out = None))"
proof -
  let ?L = "leadingScan (start (contentRange sel)) startLine"
  let ?T = "trailingScan (end' (contentRange sel)) endLine"
  have L: "(?L \<noteq> None) = (take (character (start (contentRange sel))) (text' startLine) \<noteq> [] \<and>
       isWhiteSpace (last (take (character (start (contentRange sel))) (text' startLine))))"
    by (simp add: leadingScan_None)
  have T: "(?T \<noteq> None) = (drop (character (end' (contentRange sel))) (text' endLine) \<noteq> [] \<and>
       isWhiteSpace (hd (drop (character (end' (contentRange sel))) (text' endLine))))"
    by (simp add: trailingScan_None)
  show ?thesis
    unfolding TokenStage_run_Inr [OF assms] Let_def isInDelimitedList_def isEqual_iff
      L [symmetric] T [symmetric]
    by auto
qed

theorem TokenStage_qualification_witness:
  "(\<exists>out. TokenStage_run example_context () (example_selection [''foobar''] (span 0 0 0 3)) = Inr out \<and>
      leadingDelimiterRange out = None \<and> trailingDelimiterRange out = None) \<and>
   (\<exists>out. TokenStage_run example_context () (example_selection [''bar baz''] (span 0 0 0 3)) = Inr out \<and>
      leadingDelimiterRange out = None \<and> trailingDelimiterRange out \<noteq> None)"
proof -
  have a: "lineAt (document (editor (example_selection [''foobar''] (span 0 0 0 3))))
             (start (contentRange (example_selection [''foobar''] (span 0 0 0 3)))) =
           Inr (example_line ''foobar'' 0)"
    using example_start_line [of 0 "[''foobar'']" 0 0 3] by simp
  have b: "lineAt (document (editor (example_selection [''foobar''] (span 0 0 0 3))))
             (end' (contentRange (example_selection [''foobar''] (span 0 0 0 3)))) =
           Inr (example_line ''foobar'' 0)"
    using example_end_line [of 0 "[''foobar'']" 0 0 3] by simp
  have c: "lineAt (document (editor (example_selection [''bar baz''] (span 0 0 0 3))))
             (start (contentRange (example_selection [''bar baz''] (span 0 0 0 3)))) =
           Inr (example_line ''bar baz'' 0)"
    using example_start_line [of 0 "[''bar baz'']" 0 0 3] by simp
  have d: "lineAt (document (editor (example_selection [''bar baz''] (span 0 0 0 3))))
             (end' (contentRange (example_selection [''bar baz''] (span 0 0 0 3)))) =
           Inr (example_line ''bar baz'' 0)"
    using example_end_line [of 0 "[''bar baz'']" 0 0 3] by simp
  from TokenStage_qualification [OF a b, of example_context "()"]
       TokenStage_qualification [OF c d, of example_context "()"]
  show ?thesis
    by (auto simp add: Let_def example_selection_def example_line_def span_def str_def
                       isWhiteSpace_def)
qed

text \<open>
  Claim C2. The output of the token stage has both delimiter ranges absent, or else each
  side is either present or at a true line boundary (the start at column 0, the end at the
  end-of-line position of its line). It never has one side present while the other side is
  neither present nor at a line boundary, even when one side matched white space.
\<close>

theorem TokenStage_both_or_neither:
  assumes "lineAt (document (editor sel)) (start (contentRange sel)) = Inr startLine"
      and "lineAt (document (editor sel)) (end' (contentRange sel)) = Inr endLine"
  shows "\<exists>out. TokenStage_run ctx stage sel = Inr out \<and>
     ((leadingDelimiterRange out = None \<and> trailingDelimiterRange out = None) \<or>
      ((leadingDelimiterRange out \<noteq> None \<or> character (start (contentRange sel)) = 0) \<and>
       (trailingDelimiterRange out \<noteq> None \<or>
          end' (contentRange sel) = end' (range' endLine))))"
  unfolding TokenStage_run_Inr [OF assms] isInDelimitedList_def isEqual_iff
  by auto

theorem TokenStage_both_or_neither_witness:
  "\<exists>out. TokenStage_run example_context () (example_selection [''a foobar''] (span 0 2 0 5)) = Inr out \<and>
         leadingDelimiterRange out = None \<and> trailingDelimiterRange out = None \<and>
         isWhiteSpace (str ''a foobar'' ! 1)"
proof -
  have a: "lineAt (document (editor (example_selection [''a foobar''] (span 0 2 0 5))))
             (start (contentRange (example_selection [''a foobar''] (span 0 2 0 5)))) =
           Inr (example_line ''a foobar'' 0)"
    using example_start_line [of 0 "[''a foobar'']" 2 0 5] by simp
  have b: "lineAt (document (editor (example_selection [''a foobar''] (span 0 2 0 5))))
             (end' (contentRange (example_selection [''a foobar''] (span 0 2 0 5)))) =
           Inr (example_line ''a foobar'' 0)"
    using example_end_line [of 0 "[''a foobar'']" 0 2 5] by simp
  note inst = TokenStage_both_or_neither [OF a b, of example_context "()"]
  show ?thesis
    using inst unfolding example_run_a_foobar
    by (simp add: isWhiteSpace_def str_def)
qed

text \<open>
  Claim C3, as the code has it. Whenever the output has a leading delimiter range, the range
  ends exactly at the start of the content range, lies on its line and is not empty; when
  the start column of the content lies within its line, every column of the range holds
  white space and the column before the range, if there is one, does not: the range is
  exactly the maximal run of white space before the content. A trailing delimiter range
  starts exactly at the end of the content range, is not empty, stays within the line, holds
  white space only, and is followed by the end of the line or by a character that is not
  white space.
\<close>

theorem TokenStage_delimiter_adjacent_maximal:
  assumes "lineAt (document (editor sel)) (start (contentRange sel)) = Inr startLine"
      and "lineAt (document (editor sel)) (end' (contentRange sel)) = Inr endLine"
  shows "\<exists>out. TokenStage_run ctx stage sel = Inr out \<and>
     (\<forall>r. leadingDelimiterRange out = Some r \<longrightarrow>
        end' r = start (contentRange sel) \<and>
        line (start r) = line (start (contentRange sel)) \<and>
        character (start r) < character (start (contentRange sel)) \<and>
        (character (start (contentRange sel)) \<le> length (text' startLine) \<longrightarrow>
           (\<forall>k. character (start r) \<le> k \<and> k < character (start (contentRange sel)) \<longrightarrow>
                isWhiteSpace (text' startLine ! k)) \<and>
           (character (start r) = 0 \<or>
            \<not> isWhiteSpace (text' startLine ! (character (start r) - 1))))) \<and>
     (\<forall>r. trailingDelimiterRange out = Some r \<longrightarrow>
        start r = end' (contentRange sel) \<and>
        line (end' r) = line (end' (contentRange sel)) \<and>
        character (end' (contentRange sel)) < character (end' r) \<and>
        character (end' r) \<le> length (text' endLine) \<and>
        (\<forall>k. character (end' (contentRange sel)) \<le> k \<and> k < character (end' r) \<longrightarrow>
             isWhiteSpace (text' endLine ! k)) \<and>
        (character (end' r) = length (text' endLine) \<or>
         \<not> isWhiteSpace (text' endLine ! character (end' r))))"
proof -
  let ?s = "start (contentRange sel)" and ?e = "end' (contentRange sel)"
  let ?PL = "\<lambda>r. end' r = ?s \<and> line (start r) = line ?s \<and> character (start r) < character ?s \<and>
        (character ?s \<le> length (text' startLine) \<longrightarrow>
           (\<forall>k. character (start r) \<le> k \<and> k < character ?s \<longrightarrow>
                isWhiteSpace (text' startLine ! k)) \<and>
           (character (start r) = 0 \<or>
            \<not> isWhiteSpace (text' startLine ! (character (start r) - 1))))"
  let ?PT = "\<lambda>r. start r = ?e \<and> line (end' r) = line ?e \<and> character ?e < character (end' r) \<and>
        character (end' r) \<le> length (text' endLine) \<and>
        (\<forall>k. character ?e \<le> k \<and> k < character (end' r) \<longrightarrow> isWhiteSpace (text' endLine ! k)) \<and>
        (character (end' r) = length (text' endLine) \<or>
         \<not> isWhiteSpace (text' endLine ! character (end' r)))"
  have lead: "?PL r" if "leadingScan ?s startLine = Some r" for r
  proof -
    from leadingScan_Some [OF that] obtain m where
      m: "match_ws_end (take (character ?s) (text' startLine)) = Some m"
      and r: "r = \<lparr>start = \<lparr>line = line ?s, character = character ?s - length m\<rparr>, end' = ?s\<rparr>"
      by blast
    from leading_columns [OF m] have
      len: "0 < length m" "length m \<le> character ?s"
      and cols: "character ?s \<le> length (text' startLine) \<longrightarrow>
        (\<forall>k. character ?s - length m \<le> k \<and> k < character ?s \<longrightarrow>
             isWhiteSpace (text' startLine ! k)) \<and>
        (character ?s - length m = 0 \<or>
         \<not> isWhiteSpace (text' startLine ! (character ?s - length m - 1)))"
      by blast+
    from len have "character ?s - length m < character ?s" by linarith
    with cols r show ?thesis by simp
  qed
  have trail: "?PT r"
    if "trailingScan ?e endLine = Some r" for r
  proof -
    from trailingScan_Some [OF that] obtain m where
      m: "match_ws_start (drop (character ?e) (text' endLine)) = Some m"
      and r: "r = \<lparr>start = ?e, end' = \<lparr>line = line ?e, character = character ?e + length m\<rparr>\<rparr>"
      by blast
    from trailing_columns [OF m] r show ?thesis by simp
  qed
  from TokenStage_run_scans [OF assms, of ctx stage] obtain out where
    run: "TokenStage_run ctx stage sel = Inr out"
    and L: "\<And>r. leadingDelimiterRange out = Some r \<Longrightarrow> leadingScan ?s startLine = Some r"
    and T: "\<And>r. trailingDelimiterRange out = Some r \<Longrightarrow> trailingScan ?e endLine = Some r"
    by blast
  from L lead T trail have
    "(\<forall>r. leadingDelimiterRange out = Some r \<longrightarrow> ?PL r) \<and>
     (\<forall>r. trailingDelimiterRange out = Some r \<longrightarrow> ?PT r)"
    by blast
  with run show ?thesis by blast
qed

theorem TokenStage_delimiter_adjacent_maximal_witness:
  "\<exists>out. TokenStage_run example_context () (example_selection [''foo bar baz''] (span 0 4 0 7)) = Inr out \<and>
         leadingDelimiterRange out = Some (span 0 3 0 4) \<and>
         trailingDelimiterRange out = Some (span 0 7 0 8) \<and>
         end' (span 0 3 0 4) = start (span 0 4 0 7) \<and>
         start (span 0 7 0 8) = end' (span 0 4 0 7) \<and>
         isWhiteSpace (str ''foo bar baz'' ! 3) \<and> \<not> isWhiteSpace (str ''foo bar baz'' ! 2) \<and>
         isWhiteSpace (str ''foo bar baz'' ! 7) \<and> \<not> isWhiteSpace (str ''foo bar baz'' ! 8)"
proof -
  have a: "lineAt (document (editor (example_selection [''foo bar baz''] (span 0 4 0 7))))
             (start (contentRange (example_selection [''foo bar baz''] (span 0 4 0 7)))) =
           Inr (example_line ''foo bar baz'' 0)"
    using example_start_line [of 0 "[''foo bar baz'']" 4 0 7] by simp
  have b: "lineAt (document (editor (example_selection [''foo bar baz''] (span 0 4 0 7))))
             (end' (contentRange (example_selection [''foo bar baz''] (span 0 4 0 7)))) =
           Inr (example_line ''foo bar baz'' 0)"
    using example_end_line [of 0 "[''foo bar baz'']" 0 4 7] by simp
  note inst = TokenStage_delimiter_adjacent_maximal [OF a b, of example_context "()"]
  show ?thesis
    using inst unfolding example_run_foo_bar_baz
    by (simp add: span_def isWhiteSpace_def str_def)
qed

text \<open>
  The claim without the condition on the start column fails. On the line \<open>a\<close> followed
  by three spaces, with the content starting at column 5 and ending at the end of the next
  line, the prefix is the whole line, its three trailing spaces match, and the range is
  placed before column 5: it covers columns 2 to 5, leaves out the white space at column 1
  and reaches past the four characters of the line.
\<close>

theorem TokenStage_leading_range_past_line_end:
  "TokenStage_run example_context () (example_selection [''a   '', ''x''] (span 0 5 1 1)) =
     Inr ((example_selection [''a   '', ''x''] (span 0 5 1 1))
            \<lparr>delimiter := Some (str '' ''),
             leadingDelimiterRange := Some (span 0 2 0 5),
             trailingDelimiterRange := None\<rparr>) \<and>
   isWhiteSpace (str ''a   '' ! 1) \<and>
   length (str ''a   '') = 4"
  by code_simp

text \<open>
  Claim C4, as the code has it. The position stage reports no error. For a descriptor
  whose position is none of before, start, after, end, no case of the switch applies and
  the stage returns the input selection unchanged.
\<close>

theorem PositionStage_unrecognised_position:
  assumes "position stage \<notin> {str ''before'', str ''start'', str ''after'', str ''end''}"
  shows "PositionStage_run ctx stage sel = sel"
  using assms by (simp add: PositionStage_run_def)

theorem PositionStage_unrecognised_position_witness:
  "position (example_stage ''inside'') \<notin> {str ''before'', str ''start'', str ''after'', str ''end''} \<and>
   PositionStage_run other_context (example_stage ''inside'')
       (example_selection [''foo('', ''  bar)''] (span 0 0 1 6)) =
     example_selection [''foo('', ''  bar)''] (span 0 0 1 6)"
proof -
  have h: "position (example_stage ''inside'') \<notin>
             {str ''before'', str ''start'', str ''after'', str ''end''}"
    by (simp add: example_stage_def str_def)
  from PositionStage_unrecognised_position [OF h] h show ?thesis by simp
qed

text \<open>
  The claim as the specification states it fails: at the position \<open>middle\<close> the stage
  returns its input unchanged and reports nothing.
\<close>

theorem PositionStage_silent_on_unrecognised_position:
  "position (example_stage ''middle'') \<notin> {str ''before'', str ''start'', str ''after'', str ''end''} \<and>
   PositionStage_run example_context (example_stage ''middle'')
       (example_selection [''foo bar baz''] (span 0 4 0 7)) =
     example_selection [''foo bar baz''] (span 0 4 0 7)"
  by (simp add: PositionStage_run_def example_stage_def str_def)

text \<open>
  Claim C5. For a selection with content range \<open>r\<close>, the position stage with before or
  start yields the content range from \<open>start r\<close> to \<open>start r\<close>, and with after or end
  the content range from \<open>end r\<close> to \<open>end r\<close>. So for each of the four positions the
  output content range has zero width, whatever lines \<open>r\<close> spans.
\<close>

theorem PositionStage_zero_width:
  "(position stage = str ''before'' \<or> position stage = str ''start'' \<longrightarrow>
      contentRange (PositionStage_run ctx stage sel) =
        \<lparr>start = start (contentRange sel), end' = start (contentRange sel)\<rparr>) \<and>
   (position stage = str ''after'' \<or> position stage = str ''end'' \<longrightarrow>
      contentRange (PositionStage_run ctx stage sel) =
        \<lparr>start = end' (contentRange sel), end' = end' (contentRange sel)\<rparr>) \<and>
   (position stage \<in> {str ''before'', str ''start'', str ''after'', str ''end''} \<longrightarrow>
      start (contentRange (PositionStage_run ctx stage sel)) =
      end' (contentRange (PositionStage_run ctx stage sel)))"
  by (auto simp: PositionStage_run_def Let_def range_opt_Some position_labels_distinct
                 position_labels_distinct [symmetric])

theorem PositionStage_zero_width_witness:
  "contentRange (PositionStage_run example_context (example_stage ''before'')
       (example_selection [''foo('', ''  bar)''] (span 0 0 1 6))) = span 0 0 0 0 \<and>
   contentRange (PositionStage_run example_context (example_stage ''start'')
       (example_selection [''foo('', ''  bar)''] (span 0 0 1 6))) = span 0 0 0 0 \<and>
   contentRange (PositionStage_run example_context (example_stage ''after'')
       (example_selection [''foo('', ''  bar)''] (span 0 0 1 6))) = span 1 6 1 6 \<and>
   contentRange (PositionStage_run example_context (example_stage ''end'')
       (example_selection [''foo('', ''  bar)''] (span 0 0 1 6))) = span 1 6 1 6"
  using PositionStage_zero_width [where stage = "example_stage ''before''"
          and ctx = example_context
          and sel = "example_selection [''foo('', ''  bar)''] (span 0 0 1 6)"]
        PositionStage_zero_width [where stage = "example_stage ''start''"
          and ctx = example_context
          and sel = "example_selection [''foo('', ''  bar)''] (span 0 0 1 6)"]
        PositionStage_zero_width [where stage = "example_stage ''after''"
          and ctx = example_context
          and sel = "example_selection [''foo('', ''  bar)''] (span 0 0 1 6)"]
        PositionStage_zero_width [where stage = "example_stage ''end''"
          and ctx = example_context
          and sel = "example_selection [''foo('', ''  bar)''] (span 0 0 1 6)"]
  by (simp add: example_stage_def example_selection_def span_def)

text \<open>
  Claim C6. The position stage is idempotent: running it twice with the same descriptor
  gives the same selection as running it once. This holds for every descriptor, the four
  positions before, start, after and end among them.
\<close>

theorem PositionStage_idempotent:
  "PositionStage_run ctx stage (PositionStage_run ctx stage sel) = PositionStage_run ctx stage sel"
  by (cases "interiorRange sel")
     (simp_all add: PositionStage_run_def Let_def range_opt_Some range_opt_None)

theorem PositionStage_idempotent_witness:
  "PositionStage_run example_context (example_stage ''start'')
     (PositionStage_run example_context (example_stage ''start'')
        (example_selection [''foo bar baz''] (span 0 4 0 7))) =
   PositionStage_run example_context (example_stage ''start'')
     (example_selection [''foo bar baz''] (span 0 4 0 7))"
  by (rule PositionStage_idempotent)

text \<open>
  Claim C7. The position stage copies delimiter, both delimiter ranges, boundary,
  isRawSelection, isReversed and editor from its input. An absent interior range stays
  absent; a present one becomes the zero-width range at its start for before and start, and
  at its end for after and end.
\<close>

theorem PositionStage_frame:
  "delimiter (PositionStage_run ctx stage sel) = delimiter sel \<and>
   leadingDelimiterRange (PositionStage_run ctx stage sel) = leadingDelimiterRange sel \<and>
   trailingDelimiterRange (PositionStage_run ctx stage sel) = trailingDelimiterRange sel \<and>
   boundary (PositionStage_run ctx stage sel) = boundary sel \<and>
   isRawSelection (PositionStage_run ctx stage sel) = isRawSelection sel \<and>
   isReversed (PositionStage_run ctx stage sel) = isReversed sel \<and>
   editor (PositionStage_run ctx stage sel) = editor sel \<and>
   (interiorRange sel = None \<longrightarrow> interiorRange (PositionStage_run ctx stage sel) = None) \<and>
   (\<forall>r. interiorRange sel = Some r \<longrightarrow>
      (position stage = str ''before'' \<or> position stage = str ''start'' \<longrightarrow>
         interiorRange (PositionStage_run ctx stage sel) = Some \<lparr>start = start r, end' = start r\<rparr>) \<and>
      (position stage = str ''after'' \<or> position stage = str ''end'' \<longrightarrow>
         interiorRange (PositionStage_run ctx stage sel) = Some \<lparr>start = end' r, end' = end' r\<rparr>))"
  by (auto simp: PositionStage_run_def Let_def range_opt_Some range_opt_None
                 position_labels_distinct)

theorem PositionStage_frame_witness:
  "interiorRange (PositionStage_run example_context (example_stage ''after'')
     ((example_selection [''(foo)''] (span 0 0 0 5))\<lparr>interiorRange := Some (span 0 1 0 4)\<rparr>)) =
     Some (span 0 4 0 4) \<and>
   delimiter (PositionStage_run example_context (example_stage ''after'')
     ((example_selection [''(foo)''] (span 0 0 0 5))\<lparr>interiorRange := Some (span 0 1 0 4)\<rparr>)) =
     Some (str '','') \<and>
   interiorRange (PositionStage_run example_context (example_stage ''before'')
     (example_selection [''(foo)''] (span 0 0 0 5))) = None"
  using PositionStage_frame [where stage = "example_stage ''after''"
          and ctx = example_context
          and sel = "(example_selection [''(foo)''] (span 0 0 0 5))\<lparr>interiorRange := Some (span 0 1 0 4)\<rparr>"]
        PositionStage_frame [where stage = "example_stage ''before''"
          and ctx = example_context
          and sel = "example_selection [''(foo)''] (span 0 0 0 5)"]
  by (simp add: example_stage_def example_selection_def span_def)

text \<open>
  Claim C8. The output of the token stage has a single space as its delimiter, whatever
  delimiter the input carried, and its editor, content range, interior range, boundary,
  isReversed and isRawSelection are those of the input.
\<close>

theorem TokenStage_frame:
  assumes "lineAt (document (editor sel)) (start (contentRange sel)) = Inr startLine"
      and "lineAt (document (editor sel)) (end' (contentRange sel)) = Inr endLine"
  shows "\<exists>out. TokenStage_run ctx stage sel = Inr out \<and>
     delimiter out = Some (str '' '') \<and>
     editor out = editor sel \<and>
     contentRange out = contentRange sel \<and>
     interiorRange out = interiorRange sel \<and>
     boundary out = boundary sel \<and>
     isReversed out = isReversed sel \<and>
     isRawSelection out = isRawSelection sel"
  unfolding TokenStage_run_Inr [OF assms] by simp

theorem TokenStage_frame_witness:
  "\<exists>out. TokenStage_run example_context () (example_selection [''foo bar baz''] (span 0 4 0 7)) = Inr out \<and>
         delimiter (example_selection [''foo bar baz''] (span 0 4 0 7)) = Some (str '','') \<and>
         delimiter out = Some (str '' '') \<and>
         contentRange out = span 0 4 0 7 \<and>
         isReversed out = Some False"
proof -
  have a: "lineAt (document (editor (example_selection [''foo bar baz''] (span 0 4 0 7))))
             (start (contentRange (example_selection [''foo bar baz''] (span 0 4 0 7)))) =
           Inr (example_line ''foo bar baz'' 0)"
    using example_start_line [of 0 "[''foo bar baz'']" 4 0 7] by simp
  have b: "lineAt (document (editor (example_selection [''foo bar baz''] (span 0 4 0 7))))
             (end' (contentRange (example_selection [''foo bar baz''] (span 0 4 0 7)))) =
           Inr (example_line ''foo bar baz'' 0)"
    using example_end_line [of 0 "[''foo bar baz'']" 0 4 7] by simp
  from TokenStage_frame [OF a b, of example_context "()"]
  show ?thesis
    by (auto simp add: example_selection_def)
qed

text \<open>
  Claim C9. Neither stage reads the pipeline context: on the same descriptor and the same
  selection (which holds the document), two runs with any two contexts give the same
  result. The two contexts may even differ in the types of their services.
\<close>

theorem stages_ignore_context:
  "PositionStage_run ctx1 pstage sel = PositionStage_run ctx2 pstage sel \<and>
   TokenStage_run ctx1 tstage sel = TokenStage_run ctx2 tstage sel"
  by (simp add: PositionStage_run_def TokenStage_run_def)

theorem stages_ignore_context_witness:
  "PositionStage_run example_context (example_stage ''after'')
       (example_selection [''foo bar baz''] (span 0 4 0 7)) =
   PositionStage_run other_context (example_stage ''after'')
       (example_selection [''foo bar baz''] (span 0 4 0 7)) \<and>
   TokenStage_run example_context () (example_selection [''foo bar baz''] (span 0 4 0 7)) =
   TokenStage_run other_context () (example_selection [''foo bar baz''] (span 0 4 0 7))"
  by (rule stages_ignore_context)

text \<open>
  Claim C10, as the code has it. A leading delimiter range of the output lies on the line of
  the start of the content range, a trailing one on the line of its end; each has its start
  column at or before its end column. The trailing range stays within the columns of its
  line. The leading range ends at the start column of the content, so it stays within the
  columns of its line when that column does. Neither overlaps the content range: the only
  position a delimiter range can share with it is the start of the content for the leading
  range and the end of the content for the trailing range.
\<close>

theorem TokenStage_delimiter_ranges_bounds:
  assumes "lineAt (document (editor sel)) (start (contentRange sel)) = Inr startLine"
      and "lineAt (document (editor sel)) (end' (contentRange sel)) = Inr endLine"
  shows "\<exists>out. TokenStage_run ctx stage sel = Inr out \<and>
     (\<forall>r. leadingDelimiterRange out = Some r \<longrightarrow>
        line (start r) = line (start (contentRange sel)) \<and>
        line (end' r) = line (start (contentRange sel)) \<and>
        character (start r) \<le> character (end' r) \<and>
        end' r = start (contentRange sel) \<and>
        (character (start (contentRange sel)) \<le> length (text' startLine) \<longrightarrow>
           character (end' r) \<le> length (text' startLine)) \<and>
        (\<forall>p. contains r p \<and> contains (contentRange sel) p \<longrightarrow> p = start (contentRange sel))) \<and>
     (\<forall>r. trailingDelimiterRange out = Some r \<longrightarrow>
        line (start r) = line (end' (contentRange sel)) \<and>
        line (end' r) = line (end' (contentRange sel)) \<and>
        character (start r) \<le> character (end' r) \<and>
        character (end' r) \<le> length (text' endLine) \<and>
        (\<forall>p. contains r p \<and> contains (contentRange sel) p \<longrightarrow> p = end' (contentRange sel)))"
proof -
  let ?s = "start (contentRange sel)" and ?e = "end' (contentRange sel)"
  let ?PL = "\<lambda>r. line (start r) = line ?s \<and> line (end' r) = line ?s \<and>
        character (start r) \<le> character (end' r) \<and> end' r = ?s \<and>
        (character ?s \<le> length (text' startLine) \<longrightarrow> character (end' r) \<le> length (text' startLine)) \<and>
        (\<forall>p. contains r p \<and> contains (contentRange sel) p \<longrightarrow> p = ?s)"
  let ?PT = "\<lambda>r. line (start r) = line ?e \<and> line (end' r) = line ?e \<and>
        character (start r) \<le> character (end' r) \<and>
        character (end' r) \<le> length (text' endLine) \<and>
        (\<forall>p. contains r p \<and> contains (contentRange sel) p \<longrightarrow> p = ?e)"
  have lead: "?PL r" if "leadingScan ?s startLine = Some r" for r
  proof -
    from leadingScan_Some [OF that] obtain m :: jsstring where
      r: "r = \<lparr>start = \<lparr>line = line ?s, character = character ?s - length m\<rparr>, end' = ?s\<rparr>"
      by blast
    have touch: "p = ?s" if "contains r p" "contains (contentRange sel) p" for p
    proof (rule isBefore_antisym)
      from that(2) show "\<not> isBefore p ?s" by (simp add: contains_def)
      from that(1) r show "\<not> isBefore ?s p" by (simp add: contains_def)
    qed
    from r have "line (start r) = line ?s \<and> line (end' r) = line ?s \<and>
        character (start r) \<le> character (end' r) \<and> end' r = ?s \<and>
        (character ?s \<le> length (text' startLine) \<longrightarrow>
           character (end' r) \<le> length (text' startLine))"
      by simp
    with touch show ?thesis by blast
  qed
  have trail: "?PT r"
    if "trailingScan ?e endLine = Some r" for r
  proof -
    from trailingScan_Some [OF that] obtain m where
      m: "match_ws_start (drop (character ?e) (text' endLine)) = Some m"
      and r: "r = \<lparr>start = ?e, end' = \<lparr>line = line ?e, character = character ?e + length m\<rparr>\<rparr>"
      by blast
    have touch: "p = ?e" if "contains r p" "contains (contentRange sel) p" for p
    proof (rule isBefore_antisym)
      from that(1) r show "\<not> isBefore p ?e" by (simp add: contains_def)
      from that(2) show "\<not> isBefore ?e p" by (simp add: contains_def)
    qed
    from trailing_columns [OF m] r have "line (start r) = line ?e \<and> line (end' r) = line ?e \<and>
        character (start r) \<le> character (end' r) \<and>
        character (end' r) \<le> length (text' endLine)"
      by simp
    with touch show ?thesis by blast
  qed
  from TokenStage_run_scans [OF assms, of ctx stage] obtain out where
    run: "TokenStage_run ctx stage sel = Inr out"
    and L: "\<And>r. leadingDelimiterRange out = Some r \<Longrightarrow> leadingScan ?s startLine = Some r"
    and T: "\<And>r. trailingDelimiterRange out = Some r \<Longrightarrow> trailingScan ?e endLine = Some r"
    by blast
  from L lead T trail have
    "(\<forall>r. leadingDelimiterRange out = Some r \<longrightarrow> ?PL r) \<and>
     (\<forall>r. trailingDelimiterRange out = Some r \<longrightarrow> ?PT r)"
    by blast
  with run show ?thesis by blast
qed

theorem TokenStage_delimiter_ranges_bounds_witness:
  "\<exists>out. TokenStage_run example_context ()
           (example_selection [''if (x) {'', ''  y  ''] (span 0 3 1 3)) = Inr out \<and>
         leadingDelimiterRange out = Some (span 0 2 0 3) \<and>
         trailingDelimiterRange out = Some (span 1 3 1 5) \<and>
         contains (span 0 2 0 3) (start (span 0 3 1 3)) \<and>
         contains (span 1 3 1 5) (end' (span 0 3 1 3)) \<and>
         length ''  y  '' = 5"
proof -
  have a: "lineAt (document (editor (example_selection [''if (x) {'', ''  y  ''] (span 0 3 1 3))))
             (start (contentRange (example_selection [''if (x) {'', ''  y  ''] (span 0 3 1 3)))) =
           Inr (example_line ''if (x) {'' 0)"
    using example_start_line [of 0 "[''if (x) {'', ''  y  '']" 3 1 3] by simp
  have b: "lineAt (document (editor (example_selection [''if (x) {'', ''  y  ''] (span 0 3 1 3))))
             (end' (contentRange (example_selection [''if (x) {'', ''  y  ''] (span 0 3 1 3)))) =
           Inr (example_line ''  y  '' 1)"
    using example_end_line [of 1 "[''if (x) {'', ''  y  '']" 0 3 3] by simp
  note inst = TokenStage_delimiter_ranges_bounds [OF a b, of example_context "()"]
  show ?thesis
    using inst unfolding example_run_two_lines
    by (simp add: span_def contains_def isBefore_def)
qed

text \<open>
  The claim without the condition on the start column fails. On the four-character line
  \<open>ab\<close> followed by two spaces, with the content starting at column 10 and ending at the
  end of the next line, the two trailing spaces match and the leading range covers columns
  8 to 10, which the line does not have.
\<close>

theorem TokenStage_leading_range_outside_columns:
  "TokenStage_run example_context () (example_selection [''ab  '', ''x''] (span 0 10 1 1)) =
     Inr ((example_selection [''ab  '', ''x''] (span 0 10 1 1))
            \<lparr>delimiter := Some (str '' ''),
             leadingDelimiterRange := Some (span 0 8 0 10),
             trailingDelimiterRange := None\<rparr>) \<and>
   length (str ''ab  '') < character (start (span 0 8 0 10)) \<and>
   length (str ''ab  '') < character (end' (span 0 8 0 10))"
  by code_simp

end
